theory Spec2Isabelle
  imports Complex_Main
begin

section \<open>The spatial label field store of MacroImmunet\<close>

text \<open>
  The development embeds \<^verbatim>\<open>label_center/label_center_base.py\<close> (class
  \<^verbatim>\<open>LabelCenterBase\<close>: the decaying, ownership-arbitrated field),
  \<^verbatim>\<open>label_center/label_center.py\<close> (class \<^verbatim>\<open>LabelCenter\<close>: the queue of
  write intents) and \<^verbatim>\<open>Decayer._decay_mass\<close> of \<^verbatim>\<open>scan_master/decayer.py\<close>.
  Python floats are idealised as \<^typ>\<open>real\<close>, Python ints are \<^typ>\<open>int\<close>, and a
  dict is a map. A method that mutates \<^verbatim>\<open>self\<close> takes the store and returns the
  new one; a method that raises returns \<open>Inl\<close> of the exception.
\<close>

subsection \<open>Data model\<close>

type_synonym coord = "real \<times> real"

text \<open>
  One entry of \<^verbatim>\<open>label_field[coord][label]\<close>. The source stores a dict with the
  keys \<^verbatim>\<open>"value"\<close> and \<^verbatim>\<open>"last_tick"\<close>; \<^verbatim>\<open>"owned_by"\<close> and
  \<^verbatim>\<open>"cooldown_until"\<close> are read with \<^verbatim>\<open>.get\<close>, so a missing key and
  \<^verbatim>\<open>None\<close> are the same value \<open>None\<close> here. The field \<^verbatim>\<open>value\<close> is
  called \<open>val\<close>, since \<^verbatim>\<open>value\<close> is reserved in Isabelle.
\<close>

record entry =
  val :: real
  last_tick :: int
  owned_by :: "string option"
  cooldown_until :: "int option"

record label_center_base =
  decay_rate :: real
  claim_cooldown :: int
  prune_threshold :: real
  current_tick :: int
  label_field :: "coord \<rightharpoonup> (string \<rightharpoonup> entry)"

text \<open>
  An intent is a dict with a \<^verbatim>\<open>"name"\<close> and a \<^verbatim>\<open>"payload"\<close> dict; every key
  is read with \<^verbatim>\<open>.get\<close> by \<^verbatim>\<open>LabelCenterBase\<close>, so each may be absent. A
  missing payload is the payload with no key.
\<close>

record payload =
  coord :: "coord option"
  label :: "string option"
  amount :: "real option"

record intent =
  name :: "string option"
  payload :: payload

datatype exn = KeyError | ValueError | ZeroDivisionError

text \<open>\<^verbatim>\<open>LabelCenterBase.__init__\<close> with its default arguments.\<close>

definition init_base :: "real \<Rightarrow> int \<Rightarrow> real \<Rightarrow> label_center_base" where
  "init_base rate cooldown threshold =
     \<lparr>decay_rate = rate, claim_cooldown = cooldown, prune_threshold = threshold,
      current_tick = 0, label_field = Map.empty\<rparr>"

definition default_base :: label_center_base where
  "default_base = init_base (9 / 10) 0 0"

subsection \<open>Operations of \<^verbatim>\<open>LabelCenterBase\<close>\<close>

text \<open>\<^verbatim>\<open>self.label_field.get(coord, {}).get(label)\<close>: a read that creates nothing.\<close>

definition get_entry :: "label_center_base \<Rightarrow> coord \<Rightarrow> string \<Rightarrow> entry option" where
  "get_entry s c l = (case label_field s c of None \<Rightarrow> None | Some m \<Rightarrow> m l)"

text \<open>
  Assignment to keys of an entry dict that was found at \<open>(c, l)\<close>: the entry is
  mutated in place, so the store holds the new entry at the same key.
\<close>

definition set_entry :: "label_center_base \<Rightarrow> coord \<Rightarrow> string \<Rightarrow> entry \<Rightarrow> label_center_base" where
  "set_entry s c l e =
     s\<lparr>label_field := (label_field s)
          (c \<mapsto> (case label_field s c of None \<Rightarrow> Map.empty | Some m \<Rightarrow> m)(l \<mapsto> e))\<rparr>"

text \<open>\<^verbatim>\<open>_decay(value, last_tick)\<close>; \<^verbatim>\<open>**\<close> has a positive int exponent here.\<close>

definition decay :: "label_center_base \<Rightarrow> real \<Rightarrow> int \<Rightarrow> real" where
  "decay s v lt =
     (let dt = current_tick s - lt in
      if dt \<le> 0 then v
      else if decay_rate s \<le> 0 then v
      else v * decay_rate s ^ nat dt)"

text \<open>
  \<^verbatim>\<open>_consume_intent\<close>. \<^verbatim>\<open>self.label_field[coord]\<close> is a defaultdict access: a
  missing coordinate gets an empty label dict, which the creation branch fills at once.
\<close>

definition consume_intent :: "label_center_base \<Rightarrow> intent \<Rightarrow> label_center_base" where
  "consume_intent s i =
     (if name i \<noteq> Some ''emit_label'' then s
      else case coord (payload i) of
        None \<Rightarrow> s
      | Some c \<Rightarrow>
         (case label (payload i) of
            None \<Rightarrow> s
          | Some l \<Rightarrow>
             (let a = (case amount (payload i) of None \<Rightarrow> 0 | Some x \<Rightarrow> x) in
              case get_entry s c l of
                None \<Rightarrow>
                  set_entry s c l
                    \<lparr>val = a, last_tick = current_tick s, owned_by = None, cooldown_until = None\<rparr>
              | Some e \<Rightarrow>
                  if owned_by e \<noteq> None then s
                  else set_entry s c l
                    (e\<lparr>val := decay s (val e) (last_tick e) + a, last_tick := current_tick s\<rparr>))))"

definition consume_intents :: "label_center_base \<Rightarrow> intent list \<Rightarrow> label_center_base" where
  "consume_intents s is = foldl consume_intent s is"

definition advance_tick :: "label_center_base \<Rightarrow> int \<Rightarrow> label_center_base" where
  "advance_tick s t = (if t < current_tick s then s else s\<lparr>current_tick := t\<rparr>)"

definition tick :: "label_center_base \<Rightarrow> int \<Rightarrow> label_center_base" where
  "tick s step = s\<lparr>current_tick := current_tick s + step\<rparr>"

definition get_label :: "label_center_base \<Rightarrow> coord \<Rightarrow> string \<Rightarrow> real" where
  "get_label s c l =
     (case get_entry s c l of
        None \<Rightarrow> 0
      | Some e \<Rightarrow>
          if owned_by e \<noteq> None then val e
          else (let v = decay s (val e) (last_tick e) in
                if v < prune_threshold s then 0 else v))"

definition release_label ::
  "label_center_base \<Rightarrow> coord \<Rightarrow> string \<Rightarrow> string \<Rightarrow> exn + label_center_base" where
  "release_label s c l by =
     (case get_entry s c l of
        None \<Rightarrow> Inl KeyError
      | Some e \<Rightarrow>
          if owned_by e \<noteq> Some by then Inl ValueError
          else Inr (set_entry s c l
                 (e\<lparr>owned_by := None,
                    cooldown_until := Some (current_tick s + claim_cooldown s)\<rparr>)))"

definition claim_label ::
  "label_center_base \<Rightarrow> coord \<Rightarrow> string \<Rightarrow> string \<Rightarrow> exn + (bool \<times> label_center_base)" where
  "claim_label s c l by =
     (case get_entry s c l of
        None \<Rightarrow> Inl KeyError
      | Some e \<Rightarrow>
          if owned_by e \<noteq> None then Inr (False, s)
          else (case cooldown_until e of
                  Some u \<Rightarrow>
                    if current_tick s < u then Inr (False, s)
                    else Inr (True, set_entry s c l (e\<lparr>owned_by := Some by\<rparr>))
                | None \<Rightarrow> Inr (True, set_entry s c l (e\<lparr>owned_by := Some by\<rparr>))))"

text \<open>
  \<^verbatim>\<open>prune\<close>: the class body defines it twice and the second definition is the one
  bound to the name. Per entry: an owned entry is skipped; an unowned one is settled and
  then deleted when the settled value is below the threshold.
\<close>

definition prune_entry :: "label_center_base \<Rightarrow> entry \<Rightarrow> entry option" where
  "prune_entry s e =
     (if owned_by e \<noteq> None then Some e
      else (let decayed_value = decay s (val e) (last_tick e) in
            if decayed_value < prune_threshold s then None
            else Some (e\<lparr>val := decayed_value, last_tick := current_tick s\<rparr>)))"

definition prune_labels :: "label_center_base \<Rightarrow> (string \<rightharpoonup> entry) \<Rightarrow> (string \<rightharpoonup> entry)" where
  "prune_labels s m = (\<lambda>l. case m l of None \<Rightarrow> None | Some e \<Rightarrow> prune_entry s e)"

definition prune :: "label_center_base \<Rightarrow> label_center_base" where
  "prune s =
     s\<lparr>label_field := (\<lambda>c. case label_field s c of
          None \<Rightarrow> None
        | Some m \<Rightarrow> if prune_labels s m = Map.empty then None else Some (prune_labels s m))\<rparr>"

text \<open>The first, shadowed definition of \<^verbatim>\<open>prune\<close>: it deletes without settling.\<close>

definition prune_entry_shadowed :: "label_center_base \<Rightarrow> entry \<Rightarrow> entry option" where
  "prune_entry_shadowed s e =
     (if owned_by e \<noteq> None then Some e
      else if decay s (val e) (last_tick e) < prune_threshold s then None
      else Some e)"

subsection \<open>Sequences of calls on \<^verbatim>\<open>LabelCenterBase\<close>\<close>

text \<open>
  One call of a public method. \<open>step_op\<close> is the store after the call: a call that
  raises (\<^verbatim>\<open>claim_label\<close> and \<^verbatim>\<open>release_label\<close> raise before they assign
  anything) leaves the store as it was, and \<^verbatim>\<open>get_label\<close> assigns nothing.
\<close>

datatype op =
    ConsumeIntents "intent list"
  | AdvanceTick int
  | Tick int
  | ClaimLabel coord string string
  | ReleaseLabel coord string string
  | Prune
  | GetLabel coord string

fun step_op :: "label_center_base \<Rightarrow> op \<Rightarrow> label_center_base" where
  "step_op s (ConsumeIntents is) = consume_intents s is"
| "step_op s (AdvanceTick t) = advance_tick s t"
| "step_op s (Tick step) = tick s step"
| "step_op s (ClaimLabel c l by) =
     (case claim_label s c l by of Inl _ \<Rightarrow> s | Inr (_, s') \<Rightarrow> s')"
| "step_op s (ReleaseLabel c l by) =
     (case release_label s c l by of Inl _ \<Rightarrow> s | Inr s' \<Rightarrow> s')"
| "step_op s Prune = prune s"
| "step_op s (GetLabel c l) = s"

definition run :: "label_center_base \<Rightarrow> op list \<Rightarrow> label_center_base" where
  "run s ops = foldl step_op s ops"

text \<open>The emit intent the tests build: all three payload keys present.\<close>

definition emit :: "coord \<Rightarrow> string \<Rightarrow> real \<Rightarrow> intent" where
  "emit c l a =
     \<lparr>name = Some ''emit_label'', payload = \<lparr>coord = Some c, label = Some l, amount = Some a\<rparr>\<rparr>"

definition amount_of :: "intent \<Rightarrow> real" where
  "amount_of i = (case amount (payload i) of None \<Rightarrow> 0 | Some x \<Rightarrow> x)"

text \<open>Every stored value is non-negative.\<close>

definition values_nonneg :: "label_center_base \<Rightarrow> bool" where
  "values_nonneg s = (\<forall>c l e. get_entry s c l = Some e \<longrightarrow> 0 \<le> val e)"

text \<open>Every amount a call submits is non-negative.\<close>

fun amounts_nonneg :: "op \<Rightarrow> bool" where
  "amounts_nonneg (ConsumeIntents is) = (\<forall>i \<in> set is. 0 \<le> amount_of i)"
| "amounts_nonneg _ = True"

subsection \<open>\<^verbatim>\<open>LabelCenter\<close>: the intent queue\<close>

text \<open>
  \<^verbatim>\<open>intent_queue\<close> holds dicts \<^verbatim>\<open>{intents, source, tick}\<close>; \<^verbatim>\<open>field\<close> maps
  a coordinate to \<^verbatim>\<open>{label: amount}\<close>. The grid summary wraps each label dict as
  \<^verbatim>\<open>{"labels": dict(labels)}\<close>, a copy; the wrapper is left out. \<^verbatim>\<open>events\<close> is
  never read or written by these methods and is omitted.
\<close>

record batch =
  b_intents :: "intent list"
  b_source :: "string option"
  b_tick :: "int option"

record label_center =
  intent_queue :: "batch list"
  field :: "coord \<rightharpoonup> (string \<rightharpoonup> real)"
  grid_summary_cache :: "(coord \<rightharpoonup> (string \<rightharpoonup> real)) option"

definition init_center :: label_center where
  "init_center = \<lparr>intent_queue = [], field = Map.empty, grid_summary_cache = None\<rparr>"

definition enqueue_intents ::
  "label_center \<Rightarrow> intent list \<Rightarrow> string option \<Rightarrow> int option \<Rightarrow> label_center" where
  "enqueue_intents lc is src t =
     (if is = [] then lc
      else lc\<lparr>intent_queue := intent_queue lc @ [\<lparr>b_intents = is, b_source = src, b_tick = t\<rparr>]\<rparr>)"

text \<open>
  \<^verbatim>\<open>_apply_intent\<close>: \<^verbatim>\<open>payload["coord"]\<close> and \<^verbatim>\<open>payload["label"]\<close> raise
  \<^verbatim>\<open>KeyError\<close> on a missing key, before anything is assigned; the default amount
  is 1.0 here.
\<close>

definition apply_intent :: "label_center \<Rightarrow> intent \<Rightarrow> exn + label_center" where
  "apply_intent lc i =
     (if name i = Some ''emit_label'' then
        (case coord (payload i) of
           None \<Rightarrow> Inl KeyError
         | Some c \<Rightarrow>
            (case label (payload i) of
               None \<Rightarrow> Inl KeyError
             | Some l \<Rightarrow>
                (let a = (case amount (payload i) of None \<Rightarrow> 1 | Some x \<Rightarrow> x);
                     m = (case field lc c of None \<Rightarrow> Map.empty | Some m \<Rightarrow> m)
                 in Inr (lc\<lparr>field := (field lc)
                       (c \<mapsto> m(l \<mapsto> (case m l of None \<Rightarrow> 0 | Some v \<Rightarrow> v) + a))\<rparr>))))
      else Inr lc)"

text \<open>
  The two loops of \<^verbatim>\<open>apply_tick\<close>. An exception leaves the loops at once; the
  error carries the store as mutated so far.
\<close>

fun apply_batch :: "label_center \<Rightarrow> intent list \<Rightarrow> (exn \<times> label_center) + label_center" where
  "apply_batch lc [] = Inr lc"
| "apply_batch lc (i # is) =
     (case apply_intent lc i of Inl e \<Rightarrow> Inl (e, lc) | Inr lc' \<Rightarrow> apply_batch lc' is)"

fun apply_queue :: "label_center \<Rightarrow> batch list \<Rightarrow> (exn \<times> label_center) + label_center" where
  "apply_queue lc [] = Inr lc"
| "apply_queue lc (b # bs) =
     (case apply_batch lc (b_intents b) of Inl x \<Rightarrow> Inl x | Inr lc' \<Rightarrow> apply_queue lc' bs)"

text \<open>\<^verbatim>\<open>apply_tick(tick=None)\<close>: the argument is not used by the body.\<close>

definition apply_tick :: "label_center \<Rightarrow> int option \<Rightarrow> (exn \<times> label_center) + label_center" where
  "apply_tick lc t =
     (case apply_queue lc (intent_queue lc) of
        Inl x \<Rightarrow> Inl x
      | Inr lc' \<Rightarrow> Inr (lc'\<lparr>intent_queue := [], grid_summary_cache := None\<rparr>))"









subsection \<open>\<^verbatim>\<open>Decayer._decay_mass\<close>\<close>

record decayer =
  removal_threshold :: real
  min_half_life :: real
  global_default_half_life :: "real option"

definition default_decayer :: decayer where
  "default_decayer =
     \<lparr>removal_threshold = 1 / 1000000, min_half_life = 1 / 1000000,
      global_default_half_life = None\<rparr>"

text \<open>
  \<^verbatim>\<open>0.5 ** (dt / half_life)\<close> is the real power; the division raises
  \<^verbatim>\<open>ZeroDivisionError\<close> when the clamped half-life is zero.
\<close>

definition decay_mass :: "decayer \<Rightarrow> real \<Rightarrow> real \<Rightarrow> real \<Rightarrow> exn + real" where
  "decay_mass d mass dt half_life =
     (if dt \<le> 0 then Inr mass
      else (let hl = (if half_life < min_half_life d then min_half_life d else half_life) in
            if hl = 0 then Inl ZeroDivisionError
            else Inr (mass * (1 / 2) powr (dt / hl))))"

text \<open>
  The reference definition, following the words of the specification: the value times
  0.5 to the power elapsed over half-life, elapsed clamped to at least 0, and a
  half-life of at most 0 meaning no decay.
\<close>

definition decay_reference :: "real \<Rightarrow> real \<Rightarrow> real \<Rightarrow> real" where
  "decay_reference v elapsed half_life =
     (if half_life \<le> 0 then v else v * (1 / 2) powr (max elapsed 0 / half_life))"

subsection \<open>Stores of the test suite\<close>

text \<open>\<^verbatim>\<open>test_step5_7\<close>: one emit of 10.0 at (0, 0) on a store with cooldown 2.\<close>

definition cooldown_store :: label_center_base where
  "cooldown_store = consume_intents (init_base 1 2 0) [emit (0, 0) ''antigen'' 10]"

text \<open>\<^verbatim>\<open>test_step5_8\<close>: one emit of 1.0, rate 0.5 and threshold 0.2, then tick 3.\<close>

definition prune_store :: label_center_base where
  "prune_store =
     advance_tick (consume_intents (init_base (1 / 2) 0 (1 / 5)) [emit (0, 0) ''antigen'' 1]) 3"

text \<open>
  \<^verbatim>\<open>test_step5_7\<close> continued: claimed by \<^verbatim>\<open>percell_A\<close> at tick 1, now at tick 2.
\<close>

definition owned_store :: label_center_base where
  "owned_store =
     run cooldown_store [AdvanceTick 1, ClaimLabel (0, 0) ''antigen'' ''percell_A'', AdvanceTick 2]"

text \<open>\<^verbatim>\<open>test_step5_6\<close>: one emit of 10.0 at tick 0 with rate 0.5, now at tick 1.\<close>

definition decaying_store :: label_center_base where
  "decaying_store =
     advance_tick (consume_intents (init_base (1 / 2) 0 0) [emit (0, 0) ''antigen'' 10]) 1"

section \<open>Ownership: claim\<close>

lemma get_entry_set_entry:
  "get_entry (set_entry s c l e) c' l' = (if c' = c \<and> l' = l then Some e else get_entry s c' l')"
  by (simp add: get_entry_def set_entry_def split: option.split)

lemma set_entry_scalars:
  "current_tick (set_entry s c l e) = current_tick s"
  "decay_rate (set_entry s c l e) = decay_rate s"
  "claim_cooldown (set_entry s c l e) = claim_cooldown s"
  "prune_threshold (set_entry s c l e) = prune_threshold s"
  by (simp_all add: set_entry_def)

text \<open>
  C1 (as the claim states it, refuted): on a store with no entry, \<^verbatim>\<open>claim_label\<close>
  does not return false, it raises \<^verbatim>\<open>KeyError\<close>.
\<close>

theorem claim_label_missing_raises:
  "claim_label default_base (0, 0) ''antigen'' ''percell_A'' = Inl KeyError"
  by (simp add: claim_label_def get_entry_def default_base_def init_base_def)

text \<open>
  C1 (amended): \<^verbatim>\<open>claim_label\<close> raises \<^verbatim>\<open>KeyError\<close> when the (coordinate, label)
  entry does not exist. On an existing entry it never raises: it returns false and leaves
  the store as it is when the entry is owned, or is unowned with \<^verbatim>\<open>cooldown_until\<close>
  set and \<^verbatim>\<open>current_tick < cooldown_until\<close>; in every other case it returns true
  and the store differs only in that entry's \<^verbatim>\<open>owned_by\<close>, now the claimant.
\<close>

theorem claim_label_cases:
  "(get_entry s c l = None \<longrightarrow> claim_label s c l by = Inl KeyError) \<and>
   (\<forall>e. get_entry s c l = Some e \<longrightarrow>
      (if owned_by e \<noteq> None \<or> (\<exists>u. cooldown_until e = Some u \<and> current_tick s < u)
       then claim_label s c l by = Inr (False, s)
       else \<exists>s'. claim_label s c l by = Inr (True, s') \<and>
              get_entry s' c l = Some (e\<lparr>owned_by := Some by\<rparr>) \<and>
              (\<forall>c' l'. (c', l') \<noteq> (c, l) \<longrightarrow> get_entry s' c' l' = get_entry s c' l') \<and>
              current_tick s' = current_tick s \<and> decay_rate s' = decay_rate s \<and>
              claim_cooldown s' = claim_cooldown s \<and> prune_threshold s' = prune_threshold s))"
  by (auto simp: claim_label_def get_entry_set_entry set_entry_scalars split: option.splits)

lemma cooldown_store_entry:
  "get_entry cooldown_store (0, 0) ''antigen'' =
     Some \<lparr>val = 10, last_tick = 0, owned_by = None, cooldown_until = None\<rparr>"
  by (simp add: cooldown_store_def consume_intents_def consume_intent_def emit_def init_base_def
      get_entry_def set_entry_def)

theorem claim_label_cases_witness:
  "get_entry cooldown_store (1, 1) ''antigen'' = None \<and>
   claim_label cooldown_store (1, 1) ''antigen'' ''percell_A'' = Inl KeyError \<and>
   get_entry cooldown_store (0, 0) ''antigen'' =
     Some \<lparr>val = 10, last_tick = 0, owned_by = None, cooldown_until = None\<rparr> \<and>
   (\<exists>s'. claim_label cooldown_store (0, 0) ''antigen'' ''percell_A'' = Inr (True, s') \<and>
      get_entry s' (0, 0) ''antigen'' =
        Some \<lparr>val = 10, last_tick = 0, owned_by = Some ''percell_A'', cooldown_until = None\<rparr>)"
proof -
  have none: "get_entry cooldown_store (1, 1) ''antigen'' = None"
    by (simp add: cooldown_store_def consume_intents_def consume_intent_def emit_def init_base_def
        get_entry_def set_entry_def)
  from claim_label_cases [of cooldown_store "(1, 1)" "''antigen''" "''percell_A''"] none
  have "claim_label cooldown_store (1, 1) ''antigen'' ''percell_A'' = Inl KeyError"
    by simp
  moreover
  from claim_label_cases [of cooldown_store "(0, 0)" "''antigen''" "''percell_A''"]
    cooldown_store_entry
  have "\<exists>s'. claim_label cooldown_store (0, 0) ''antigen'' ''percell_A'' = Inr (True, s') \<and>
      get_entry s' (0, 0) ''antigen'' =
        Some \<lparr>val = 10, last_tick = 0, owned_by = Some ''percell_A'', cooldown_until = None\<rparr>"
    by auto
  ultimately show ?thesis
    using none cooldown_store_entry by simp
qed

section \<open>Reading: \<^verbatim>\<open>get_label\<close>\<close>

lemma decay_unfold:
  "decay s v lt =
     (if current_tick s \<le> lt \<or> decay_rate s \<le> 0 then v
      else v * decay_rate s ^ nat (current_tick s - lt))"
  by (simp add: decay_def Let_def)

text \<open>
  C8: \<^verbatim>\<open>get_label\<close> returns 0.0 when no entry exists. For an unowned entry it
  returns the entry's value decayed from \<^verbatim>\<open>last_tick\<close> to \<^verbatim>\<open>current_tick\<close>,
  except that it returns 0.0 when that decayed value is below \<^verbatim>\<open>prune_threshold\<close>;
  the entry stays in the store with its value and \<^verbatim>\<open>last_tick\<close> as they were (the
  method assigns nothing).
\<close>

theorem get_label_cases:
  "(get_entry s c l = None \<longrightarrow> get_label s c l = 0) \<and>
   (\<forall>e. get_entry s c l = Some e \<and> owned_by e = None \<longrightarrow>
      get_label s c l =
        (if decay s (val e) (last_tick e) < prune_threshold s then 0
         else decay s (val e) (last_tick e)) \<and>
      decay s (val e) (last_tick e) =
        (if current_tick s \<le> last_tick e \<or> decay_rate s \<le> 0 then val e
         else val e * decay_rate s ^ nat (current_tick s - last_tick e)) \<and>
      get_entry (step_op s (GetLabel c l)) c l = Some e)"
  by (simp add: get_label_def decay_unfold)

lemma prune_store_entry:
  "get_entry prune_store (0, 0) ''antigen'' =
     Some \<lparr>val = 1, last_tick = 0, owned_by = None, cooldown_until = None\<rparr>"
  by (simp add: prune_store_def advance_tick_def consume_intents_def consume_intent_def emit_def
      init_base_def get_entry_def set_entry_def)

lemma prune_store_scalars:
  "current_tick prune_store = 3" "decay_rate prune_store = 1 / 2"
  "prune_threshold prune_store = 1 / 5"
  by (simp_all add: prune_store_def advance_tick_def consume_intents_def consume_intent_def
      emit_def init_base_def get_entry_def set_entry_def)

theorem get_label_cases_witness:
  "get_entry prune_store (1, 1) ''antigen'' = None \<and>
   get_label prune_store (1, 1) ''antigen'' = 0 \<and>
   get_entry prune_store (0, 0) ''antigen'' =
     Some \<lparr>val = 1, last_tick = 0, owned_by = None, cooldown_until = None\<rparr> \<and>
   get_label prune_store (0, 0) ''antigen'' = 0 \<and>
   decay prune_store 1 0 = 1 / 8 \<and>
   get_label (advance_tick cooldown_store 5) (0, 0) ''antigen'' = 10"
proof -
  have none: "get_entry prune_store (1, 1) ''antigen'' = None"
    by (simp add: prune_store_def advance_tick_def consume_intents_def consume_intent_def emit_def
        init_base_def get_entry_def set_entry_def)
  have e2: "get_entry (advance_tick cooldown_store 5) (0, 0) ''antigen'' =
     Some \<lparr>val = 10, last_tick = 0, owned_by = None, cooldown_until = None\<rparr>"
    "current_tick (advance_tick cooldown_store 5) = 5"
    "decay_rate (advance_tick cooldown_store 5) = 1"
    "prune_threshold (advance_tick cooldown_store 5) = 0"
    by (simp_all add: cooldown_store_def advance_tick_def consume_intents_def consume_intent_def
        emit_def init_base_def get_entry_def set_entry_def)
  from get_label_cases [of prune_store "(1, 1)" "''antigen''"] none
  have a: "get_label prune_store (1, 1) ''antigen'' = 0" by simp
  from get_label_cases [of prune_store "(0, 0)" "''antigen''"] prune_store_entry
    prune_store_scalars
  have b: "decay prune_store 1 0 = 1 / 8 \<and> get_label prune_store (0, 0) ''antigen'' = 0"
    by (simp add: eval_nat_numeral)
  from get_label_cases [of "advance_tick cooldown_store 5" "(0, 0)" "''antigen''"] e2
  have c: "get_label (advance_tick cooldown_store 5) (0, 0) ''antigen'' = 10"
    by simp
  show ?thesis using none a b c prune_store_entry by simp
qed

section \<open>Eviction: \<^verbatim>\<open>prune\<close>\<close>

lemma get_entry_prune:
  "get_entry (prune s) c l = (case get_entry s c l of None \<Rightarrow> None | Some e \<Rightarrow> prune_entry s e)"
proof (cases "label_field s c")
  case None
  then show ?thesis by (simp add: get_entry_def prune_def)
next
  case (Some m)
  show ?thesis
  proof (cases "prune_labels s m = Map.empty")
    case True
    then have "prune_labels s m l = None" by simp
    then have "(case m l of None \<Rightarrow> None | Some e \<Rightarrow> prune_entry s e) = None"
      by (simp add: prune_labels_def)
    with Some True show ?thesis
      by (simp add: get_entry_def prune_def)
  next
    case False
    with Some show ?thesis
      by (simp add: get_entry_def prune_def prune_labels_def)
  qed
qed

lemma prune_scalars:
  "current_tick (prune s) = current_tick s"
  "decay_rate (prune s) = decay_rate s"
  "claim_cooldown (prune s) = claim_cooldown s"
  "prune_threshold (prune s) = prune_threshold s"
  by (simp_all add: prune_def)

lemma prune_no_empty_bucket: "label_field (prune s) c \<noteq> Some Map.empty"
  by (simp add: prune_def split: option.split)

text \<open>
  C6: \<^verbatim>\<open>prune\<close> rewrites every unowned entry to its decayed value with
  \<^verbatim>\<open>last_tick = current_tick\<close> and deletes it exactly when that settled value is
  below \<^verbatim>\<open>prune_threshold\<close>; an owned entry is left as it is; no entry is created;
  and afterwards no coordinate maps to an empty label map.
\<close>

theorem prune_settles_then_deletes:
  "(\<forall>e. get_entry s c l = Some e \<and> owned_by e = None \<longrightarrow>
      get_entry (prune s) c l =
        (if decay s (val e) (last_tick e) < prune_threshold s then None
         else Some (e\<lparr>val := decay s (val e) (last_tick e), last_tick := current_tick s\<rparr>))) \<and>
   (\<forall>e. get_entry s c l = Some e \<and> owned_by e \<noteq> None \<longrightarrow> get_entry (prune s) c l = Some e) \<and>
   (get_entry s c l = None \<longrightarrow> get_entry (prune s) c l = None) \<and>
   label_field (prune s) c \<noteq> Some Map.empty \<and>
   current_tick (prune s) = current_tick s"
  by (simp add: get_entry_prune prune_entry_def prune_scalars prune_no_empty_bucket Let_def)

theorem prune_settles_then_deletes_witness:
  "get_entry prune_store (0, 0) ''antigen'' =
     Some \<lparr>val = 1, last_tick = 0, owned_by = None, cooldown_until = None\<rparr> \<and>
   get_entry (prune prune_store) (0, 0) ''antigen'' = None \<and>
   get_entry (prune (advance_tick cooldown_store 5)) (0, 0) ''antigen'' =
     Some \<lparr>val = 10, last_tick = 5, owned_by = None, cooldown_until = None\<rparr>"
proof -
  have e2: "get_entry (advance_tick cooldown_store 5) (0, 0) ''antigen'' =
     Some \<lparr>val = 10, last_tick = 0, owned_by = None, cooldown_until = None\<rparr>"
    "current_tick (advance_tick cooldown_store 5) = 5"
    "decay_rate (advance_tick cooldown_store 5) = 1"
    "prune_threshold (advance_tick cooldown_store 5) = 0"
    by (simp_all add: cooldown_store_def advance_tick_def consume_intents_def consume_intent_def
        emit_def init_base_def get_entry_def set_entry_def)
  from prune_settles_then_deletes [of prune_store "(0, 0)" "''antigen''"] prune_store_entry
    prune_store_scalars
  have a: "get_entry (prune prune_store) (0, 0) ''antigen'' = None"
    by (simp add: decay_unfold eval_nat_numeral)
  from prune_settles_then_deletes [of "advance_tick cooldown_store 5" "(0, 0)" "''antigen''"] e2
  have b: "get_entry (prune (advance_tick cooldown_store 5)) (0, 0) ''antigen'' =
     Some \<lparr>val = 10, last_tick = 5, owned_by = None, cooldown_until = None\<rparr>"
    by (simp add: decay_unfold)
  show ?thesis using a b prune_store_entry by simp
qed

section \<open>Ownership: release and cooldown\<close>

lemma advance_tick_simps:
  "label_field (advance_tick s t) = label_field s"
  "get_entry (advance_tick s t) c l = get_entry s c l"
  "current_tick (advance_tick s t) = max (current_tick s) t"
  "decay_rate (advance_tick s t) = decay_rate s"
  "claim_cooldown (advance_tick s t) = claim_cooldown s"
  "prune_threshold (advance_tick s t) = prune_threshold s"
  by (simp_all add: advance_tick_def get_entry_def)

lemma tick_simps:
  "label_field (tick s n) = label_field s"
  "get_entry (tick s n) c l = get_entry s c l"
  "current_tick (tick s n) = current_tick s + n"
  "decay_rate (tick s n) = decay_rate s"
  "claim_cooldown (tick s n) = claim_cooldown s"
  "prune_threshold (tick s n) = prune_threshold s"
  by (simp_all add: tick_def get_entry_def)


lemma owned_store_entry:
  "get_entry owned_store (0, 0) ''antigen'' =
     Some \<lparr>val = 10, last_tick = 0, owned_by = Some ''percell_A'', cooldown_until = None\<rparr>"
  "current_tick owned_store = 2" "claim_cooldown owned_store = 2"
  "decay_rate owned_store = 1" "prune_threshold owned_store = 0"
  by (simp_all add: owned_store_def run_def cooldown_store_def consume_intents_def
      consume_intent_def emit_def init_base_def claim_label_def advance_tick_def
      get_entry_def set_entry_def)


section \<open>The freeze of an owned entry\<close>

lemma consume_intent_owned:
  assumes "get_entry s c l = Some e" and "owned_by e \<noteq> None"
    and "coord (payload i) = Some c" and "label (payload i) = Some l"
  shows "consume_intent s i = s"
  using assms by (simp add: consume_intent_def)

lemma consume_intent_frozen:
  assumes "get_entry s c l = Some e" and "owned_by e \<noteq> None"
  shows "get_entry (consume_intent s i) c l = Some e"
  using assms
  by (auto simp: consume_intent_def get_entry_set_entry Let_def split: option.splits)

lemma consume_intents_frozen:
  assumes "get_entry s c l = Some e" and "owned_by e \<noteq> None"
  shows "get_entry (consume_intents s is) c l = Some e"
  using assms unfolding consume_intents_def
  by (induction "is" arbitrary: s) (simp_all add: consume_intent_frozen)

lemma claim_label_frozen:
  assumes "get_entry s c l = Some e" and "owned_by e \<noteq> None"
  shows "get_entry (case claim_label s c' l' by of Inl x \<Rightarrow> s | Inr (b, s') \<Rightarrow> s') c l = Some e"
  using assms
  by (auto simp: claim_label_def get_entry_set_entry split: option.splits)

lemma release_label_frozen:
  assumes "get_entry s c l = Some e" and "owned_by e = Some w"
    and "(c', l', by) \<noteq> (c, l, w)"
  shows "get_entry (case release_label s c' l' by of Inl x \<Rightarrow> s | Inr s' \<Rightarrow> s') c l = Some e"
  using assms
  by (auto simp: release_label_def get_entry_set_entry split: option.splits)

lemma prune_frozen:
  assumes "get_entry s c l = Some e" and "owned_by e \<noteq> None"
  shows "get_entry (prune s) c l = Some e"
  using assms by (simp add: get_entry_prune prune_entry_def)

lemma step_op_frozen:
  assumes "get_entry s c l = Some e" and "owned_by e = Some w"
    and "op \<noteq> ReleaseLabel c l w"
  shows "get_entry (step_op s op) c l = Some e"
proof (cases op)
  case (ConsumeIntents intents)
  with assms show ?thesis by (simp add: consume_intents_frozen)
next
  case (AdvanceTick t)
  with assms show ?thesis by (simp add: advance_tick_simps)
next
  case (Tick n)
  with assms show ?thesis by (simp add: tick_simps)
next
  case (ClaimLabel c' l' who)
  with assms claim_label_frozen [of s c l e c' l' who] show ?thesis by simp
next
  case (ReleaseLabel c' l' who)
  with assms release_label_frozen [of s c l e w c' l' who] show ?thesis by simp
next
  case Prune
  with assms show ?thesis by (simp add: prune_frozen)
next
  case (GetLabel c' l')
  with assms show ?thesis by simp
qed

lemma run_frozen:
  assumes "get_entry s c l = Some e" and "owned_by e = Some w"
    and "\<forall>op \<in> set ops. op \<noteq> ReleaseLabel c l w"
  shows "get_entry (run s ops) c l = Some e"
  using assms unfolding run_def
  by (induction ops arbitrary: s) (simp_all add: step_op_frozen)

lemma get_label_owned:
  assumes "get_entry s c l = Some e" and "owned_by e \<noteq> None"
  shows "get_label s c l = val e"
  using assms by (simp add: get_label_def)

text \<open>
  C2: an entry whose \<^verbatim>\<open>owned_by\<close> is set is frozen until its owner releases it.
  \<^verbatim>\<open>get_label\<close> returns the stored value, without decay, after any sequence of
  calls that does not contain that release, however far \<^verbatim>\<open>advance_tick\<close> and
  \<^verbatim>\<open>tick\<close> move the clock; an emit intent that targets the entry leaves the whole
  store unchanged; and \<^verbatim>\<open>prune\<close> neither settles nor deletes the entry.
\<close>

theorem owned_entry_frozen:
  assumes "get_entry s c l = Some e" and "owned_by e = Some w"
  shows "get_label s c l = val e \<and>
    (\<forall>ops. (\<forall>op \<in> set ops. op \<noteq> ReleaseLabel c l w) \<longrightarrow>
       get_entry (run s ops) c l = Some e \<and> get_label (run s ops) c l = val e) \<and>
    (\<forall>t. get_label (advance_tick s t) c l = val e) \<and>
    (\<forall>n. get_label (tick s n) c l = val e) \<and>
    (\<forall>i. coord (payload i) = Some c \<and> label (payload i) = Some l \<longrightarrow> consume_intent s i = s) \<and>
    get_entry (prune s) c l = Some e"
proof -
  have "get_label (run s ops) c l = val e \<and> get_entry (run s ops) c l = Some e"
    if "\<forall>op \<in> set ops. op \<noteq> ReleaseLabel c l w" for ops
    using run_frozen [OF assms that] assms(2) by (simp add: get_label_owned)
  moreover have "consume_intent s i = s"
    if "coord (payload i) = Some c \<and> label (payload i) = Some l" for i
    using consume_intent_owned [of s c l e i] assms that by simp
  ultimately show ?thesis
    using assms
    by (simp add: get_label_owned advance_tick_simps tick_simps prune_frozen)
qed

theorem owned_entry_frozen_witness:
  "get_entry owned_store (0, 0) ''antigen'' =
     Some \<lparr>val = 10, last_tick = 0, owned_by = Some ''percell_A'', cooldown_until = None\<rparr> \<and>
   get_label
     (run owned_store
        [AdvanceTick 20, ConsumeIntents [emit (0, 0) ''antigen'' 10], Prune, Tick 5,
         ClaimLabel (0, 0) ''antigen'' ''percell_B''])
     (0, 0) ''antigen'' = 10 \<and>
   consume_intent owned_store (emit (0, 0) ''antigen'' 10) = owned_store"
proof -
  let ?ops = "[AdvanceTick 20, ConsumeIntents [emit (0, 0) ''antigen'' 10], Prune, Tick 5,
         ClaimLabel (0, 0) ''antigen'' ''percell_B'']"
  have ops: "\<forall>op \<in> set ?ops. op \<noteq> ReleaseLabel (0, 0) ''antigen'' ''percell_A''"
    by simp
  have em: "coord (payload (emit (0, 0) ''antigen'' 10)) = Some (0, 0) \<and>
      label (payload (emit (0, 0) ''antigen'' 10)) = Some ''antigen''"
    by (simp add: emit_def)
  from owned_entry_frozen [OF owned_store_entry(1), of "''percell_A''"]
  have fr: "(\<forall>ops. (\<forall>op \<in> set ops. op \<noteq> ReleaseLabel (0, 0) ''antigen'' ''percell_A'') \<longrightarrow>
       get_label (run owned_store ops) (0, 0) ''antigen'' = 10)"
    and dis: "\<forall>i. coord (payload i) = Some (0, 0) \<and> label (payload i) = Some ''antigen'' \<longrightarrow>
       consume_intent owned_store i = owned_store"
    by simp_all
  from fr ops have "get_label (run owned_store ?ops) (0, 0) ''antigen'' = 10"
    by blast
  moreover from dis em have "consume_intent owned_store (emit (0, 0) ''antigen'' 10) = owned_store"
    by blast
  ultimately show ?thesis using owned_store_entry(1) by simp
qed

section \<open>Claim and release keep the settlement\<close>

lemma step_op_rates:
  "decay_rate (step_op s op) = decay_rate s \<and> prune_threshold (step_op s op) = prune_threshold s \<and>
   claim_cooldown (step_op s op) = claim_cooldown s"
proof (cases op)
  case (ConsumeIntents intents)
  have "decay_rate (foldl consume_intent s intents) = decay_rate s \<and>
        prune_threshold (foldl consume_intent s intents) = prune_threshold s \<and>
        claim_cooldown (foldl consume_intent s intents) = claim_cooldown s"
    by (induction intents arbitrary: s)
       (auto simp: consume_intent_def set_entry_scalars Let_def split: option.splits)
  with ConsumeIntents show ?thesis by (simp add: consume_intents_def)
next
  case (ClaimLabel c l who)
  then show ?thesis
    by (auto simp: claim_label_def set_entry_scalars split: option.splits)
next
  case (ReleaseLabel c l who)
  then show ?thesis
    by (auto simp: release_label_def set_entry_scalars split: option.splits)
qed (simp_all add: advance_tick_simps tick_simps prune_scalars)

lemma run_rates:
  "decay_rate (run s ops) = decay_rate s \<and> prune_threshold (run s ops) = prune_threshold s \<and>
   claim_cooldown (run s ops) = claim_cooldown s"
  unfolding run_def
  by (induction ops arbitrary: s) (simp_all add: step_op_rates)

text \<open>
  C10: \<^verbatim>\<open>claim_label\<close> changes only \<^verbatim>\<open>owned_by\<close>, and \<^verbatim>\<open>release_label\<close>
  only \<^verbatim>\<open>owned_by\<close> and \<^verbatim>\<open>cooldown_until\<close>: the value and
  \<^verbatim>\<open>last_tick\<close> of an entry last settled at tick \<open>S\<close> are the same after the
  claim, through the whole ownership period and after the release. So the read after the
  release decays the value over the whole interval from \<open>S\<close> to the current tick, the
  ownership period included (and, as every read of an unowned entry, gives 0.0 when that
  decayed value is below \<^verbatim>\<open>prune_threshold\<close>).
\<close>

theorem claim_release_keeps_settlement:
  assumes "get_entry s c l = Some e"
    and "claim_label s c l who = Inr (True, s1)"
    and "\<forall>op \<in> set ops. op \<noteq> ReleaseLabel c l who"
  shows "get_entry s1 c l = Some (e\<lparr>owned_by := Some who\<rparr>) \<and>
    get_entry (run s1 ops) c l = Some (e\<lparr>owned_by := Some who\<rparr>) \<and>
    (\<exists>s3. release_label (run s1 ops) c l who = Inr s3 \<and>
       get_entry s3 c l =
         Some (e\<lparr>owned_by := None,
                 cooldown_until := Some (current_tick (run s1 ops) + claim_cooldown s)\<rparr>) \<and>
       current_tick s3 = current_tick (run s1 ops) \<and>
       (\<forall>t. get_label (advance_tick s3 t) c l =
          (if decay (advance_tick s3 t) (val e) (last_tick e) < prune_threshold s then 0
           else decay (advance_tick s3 t) (val e) (last_tick e)) \<and>
          (last_tick e < current_tick (advance_tick s3 t) \<and> 0 < decay_rate s \<longrightarrow>
             decay (advance_tick s3 t) (val e) (last_tick e) =
               val e * decay_rate s ^ nat (current_tick (advance_tick s3 t) - last_tick e))))"
proof -
  let ?e1 = "e\<lparr>owned_by := Some who\<rparr>"
  from assms(1,2) have s1: "s1 = set_entry s c l ?e1"
    by (auto simp: claim_label_def split: option.splits if_splits)
  then have e1: "get_entry s1 c l = Some ?e1"
    by (simp add: get_entry_set_entry)
  have own: "owned_by ?e1 = Some who" by simp
  have e2: "get_entry (run s1 ops) c l = Some ?e1"
    by (rule run_frozen [OF e1 own assms(3)])
  have rates: "decay_rate (run s1 ops) = decay_rate s" "prune_threshold (run s1 ops) = prune_threshold s"
    "claim_cooldown (run s1 ops) = claim_cooldown s"
    using run_rates [of s1 ops] s1 by (simp_all add: set_entry_scalars)
  let ?s2 = "run s1 ops"
  let ?e3 = "e\<lparr>owned_by := None, cooldown_until := Some (current_tick ?s2 + claim_cooldown s)\<rparr>"
  let ?s3 = "set_entry ?s2 c l ?e3"
  have rel: "release_label ?s2 c l who = Inr ?s3"
    using e2 rates by (simp add: release_label_def)
  have e3: "get_entry ?s3 c l = Some ?e3"
    by (simp add: get_entry_set_entry)
  have "get_label (advance_tick ?s3 t) c l =
          (if decay (advance_tick ?s3 t) (val e) (last_tick e) < prune_threshold s then 0
           else decay (advance_tick ?s3 t) (val e) (last_tick e))" for t
    using e3 rates by (simp add: get_label_def advance_tick_simps set_entry_scalars Let_def)
  moreover have "decay (advance_tick ?s3 t) (val e) (last_tick e) =
               val e * decay_rate s ^ nat (current_tick (advance_tick ?s3 t) - last_tick e)"
    if "last_tick e < current_tick (advance_tick ?s3 t) \<and> 0 < decay_rate s" for t
    using that rates by (simp add: decay_unfold advance_tick_simps set_entry_scalars)
  ultimately show ?thesis
    using e1 e2 rel e3 by (simp add: set_entry_scalars)
qed

lemma decaying_store_entry:
  "get_entry decaying_store (0, 0) ''antigen'' =
     Some \<lparr>val = 10, last_tick = 0, owned_by = None, cooldown_until = None\<rparr>"
  "current_tick decaying_store = 1" "claim_cooldown decaying_store = 0"
  "decay_rate decaying_store = 1 / 2" "prune_threshold decaying_store = 0"
  by (simp_all add: decaying_store_def consume_intents_def consume_intent_def emit_def
      init_base_def advance_tick_def get_entry_def set_entry_def)

theorem claim_release_keeps_settlement_witness:
  "get_entry decaying_store (0, 0) ''antigen'' =
     Some \<lparr>val = 10, last_tick = 0, owned_by = None, cooldown_until = None\<rparr> \<and>
   (\<exists>s1. claim_label decaying_store (0, 0) ''antigen'' ''percell_A'' = Inr (True, s1) \<and>
      get_label (run s1 [AdvanceTick 2]) (0, 0) ''antigen'' = 10 \<and>
      (\<exists>s3. release_label (run s1 [AdvanceTick 2]) (0, 0) ''antigen'' ''percell_A'' = Inr s3 \<and>
         get_entry s3 (0, 0) ''antigen'' =
           Some \<lparr>val = 10, last_tick = 0, owned_by = None, cooldown_until = Some 2\<rparr> \<and>
         get_label (advance_tick s3 3) (0, 0) ''antigen'' = 5 / 4))"
proof -
  let ?e = "\<lparr>val = 10, last_tick = 0, owned_by = None, cooldown_until = None\<rparr>"
  let ?s1 = "set_entry decaying_store (0, 0) ''antigen'' (?e\<lparr>owned_by := Some ''percell_A''\<rparr>)"
  let ?s2 = "run ?s1 [AdvanceTick 2]"
  have cl: "claim_label decaying_store (0, 0) ''antigen'' ''percell_A'' = Inr (True, ?s1)"
    by (simp add: claim_label_def decaying_store_entry)
  have ops: "\<forall>op \<in> set [AdvanceTick 2]. op \<noteq> ReleaseLabel (0, 0) ''antigen'' ''percell_A''"
    by simp
  have t2: "current_tick ?s2 = 2"
    by (simp add: run_def advance_tick_simps set_entry_scalars decaying_store_entry)
  from claim_release_keeps_settlement [OF decaying_store_entry(1) cl ops]
  obtain s3 where fr: "get_entry ?s2 (0, 0) ''antigen'' = Some (?e\<lparr>owned_by := Some ''percell_A''\<rparr>)"
    and rel: "release_label ?s2 (0, 0) ''antigen'' ''percell_A'' = Inr s3"
    and e3: "get_entry s3 (0, 0) ''antigen'' =
         Some (?e\<lparr>owned_by := None,
                 cooldown_until := Some (current_tick ?s2 + claim_cooldown decaying_store)\<rparr>)"
    and t3: "current_tick s3 = current_tick ?s2"
    and rd: "\<forall>t. get_label (advance_tick s3 t) (0, 0) ''antigen'' =
          (if decay (advance_tick s3 t) (val ?e) (last_tick ?e) < prune_threshold decaying_store
           then 0 else decay (advance_tick s3 t) (val ?e) (last_tick ?e)) \<and>
          (last_tick ?e < current_tick (advance_tick s3 t) \<and> 0 < decay_rate decaying_store \<longrightarrow>
             decay (advance_tick s3 t) (val ?e) (last_tick ?e) =
               val ?e * decay_rate decaying_store ^
                 nat (current_tick (advance_tick s3 t) - last_tick ?e))"
    by blast
  have "current_tick (advance_tick s3 3) = 3"
    using t3 t2 by (simp add: advance_tick_simps)
  with rd have "get_label (advance_tick s3 3) (0, 0) ''antigen'' = 5 / 4"
    by (simp add: decaying_store_entry eval_nat_numeral)
  moreover from fr have "get_label ?s2 (0, 0) ''antigen'' = 10"
    by (simp add: get_label_def)
  moreover from e3 t2 have "get_entry s3 (0, 0) ''antigen'' =
           Some \<lparr>val = 10, last_tick = 0, owned_by = None, cooldown_until = Some 2\<rparr>"
    by (simp add: decaying_store_entry)
  ultimately show ?thesis
    using cl rel decaying_store_entry(1) by auto
qed

section \<open>Sign of the stored values\<close>

text \<open>
  C5 (as the claim states it, refuted): the store does not check the sign of an amount, so
  one emit of \<open>-1\<close> on a new store leaves an entry with the negative value \<open>-1\<close>.
\<close>

theorem negative_emit_stored:
  "get_entry (consume_intents default_base [emit (0, 0) ''antigen'' (- 1)]) (0, 0) ''antigen'' =
     Some \<lparr>val = - 1, last_tick = 0, owned_by = None, cooldown_until = None\<rparr> \<and>
   \<not> values_nonneg (consume_intents default_base [emit (0, 0) ''antigen'' (- 1)])"
proof -
  have e: "get_entry (consume_intents default_base [emit (0, 0) ''antigen'' (- 1)]) (0, 0) ''antigen'' =
     Some \<lparr>val = - 1, last_tick = 0, owned_by = None, cooldown_until = None\<rparr>"
    by (simp add: default_base_def consume_intents_def consume_intent_def emit_def init_base_def
        get_entry_def set_entry_def)
  then have "\<not> values_nonneg (consume_intents default_base [emit (0, 0) ''antigen'' (- 1)])"
    unfolding values_nonneg_def by fastforce
  with e show ?thesis by simp
qed

lemma decay_nonneg: "0 \<le> v \<Longrightarrow> 0 \<le> decay s v lt"
  by (simp add: decay_unfold)

lemma values_nonnegD: "values_nonneg s \<Longrightarrow> get_entry s c l = Some e \<Longrightarrow> 0 \<le> val e"
  unfolding values_nonneg_def by blast

lemma values_nonneg_set_entry:
  assumes "values_nonneg s" and "0 \<le> val e"
  shows "values_nonneg (set_entry s c l e)"
  using assms unfolding values_nonneg_def
  by (simp add: get_entry_set_entry)

lemma values_nonneg_consume_intent:
  assumes "values_nonneg s" and "0 \<le> amount_of i"
  shows "values_nonneg (consume_intent s i)"
proof -
  have "0 \<le> decay s (val e) (last_tick e) + amount_of i" if "get_entry s c l = Some e" for c l e
    using assms(2) values_nonnegD [OF assms(1) that] decay_nonneg [of "val e" s "last_tick e"]
    by simp
  with assms show ?thesis
    by (auto simp: consume_intent_def amount_of_def Let_def values_nonneg_set_entry
        split: option.splits)
qed

lemma values_nonneg_consume_intents:
  assumes "values_nonneg s" and "\<forall>i \<in> set intents. 0 \<le> amount_of i"
  shows "values_nonneg (consume_intents s intents)"
  using assms unfolding consume_intents_def
  by (induction intents arbitrary: s) (simp_all add: values_nonneg_consume_intent)

lemma values_nonneg_prune:
  assumes "values_nonneg s"
  shows "values_nonneg (prune s)"
  unfolding values_nonneg_def
proof (intro allI impI)
  fix c l e
  assume "get_entry (prune s) c l = Some e"
  then obtain e0 where e0: "get_entry s c l = Some e0" and pe: "prune_entry s e0 = Some e"
    by (auto simp: get_entry_prune split: option.splits)
  from assms e0 have "0 \<le> val e0" by (rule values_nonnegD)
  with pe decay_nonneg [of "val e0" s "last_tick e0"] show "0 \<le> val e"
    by (auto simp: prune_entry_def Let_def split: if_splits)
qed

lemma values_nonneg_step_op:
  assumes "values_nonneg s" and "amounts_nonneg op"
  shows "values_nonneg (step_op s op)"
proof (cases op)
  case (ConsumeIntents intents)
  with assms show ?thesis by (simp add: values_nonneg_consume_intents)
next
  case (AdvanceTick t)
  with assms show ?thesis by (simp add: values_nonneg_def advance_tick_simps)
next
  case (Tick n)
  with assms show ?thesis by (simp add: values_nonneg_def tick_simps)
next
  case (ClaimLabel c l who)
  have "values_nonneg (set_entry s c l (e\<lparr>owned_by := Some who\<rparr>))"
    if "get_entry s c l = Some e" for e
    using assms(1) that by (intro values_nonneg_set_entry) (simp_all add: values_nonnegD)
  with ClaimLabel assms(1) show ?thesis
    by (auto simp: claim_label_def split: option.splits)
next
  case (ReleaseLabel c l who)
  have "values_nonneg (set_entry s c l (e\<lparr>owned_by := None, cooldown_until := u\<rparr>))"
    if "get_entry s c l = Some e" for e u
    using assms(1) that by (intro values_nonneg_set_entry) (simp_all add: values_nonnegD)
  with ReleaseLabel assms(1) show ?thesis
    by (auto simp: release_label_def split: option.splits)
next
  case Prune
  with assms show ?thesis by (simp add: values_nonneg_prune)
next
  case (GetLabel c l)
  with assms show ?thesis by simp
qed

lemma values_nonneg_init: "values_nonneg (init_base rate cooldown threshold)"
  by (simp add: values_nonneg_def init_base_def get_entry_def)

text \<open>
  C5 (amended): when every stored value is non-negative, as in a new store, and every
  amount submitted is non-negative (a missing amount counts as 0.0), every stored value
  is non-negative after every sequence of calls of \<^verbatim>\<open>consume_intents\<close>,
  \<^verbatim>\<open>advance_tick\<close>, \<^verbatim>\<open>tick\<close>, \<^verbatim>\<open>claim_label\<close>, \<^verbatim>\<open>release_label\<close>,
  \<^verbatim>\<open>prune\<close> and \<^verbatim>\<open>get_label\<close>.
\<close>

theorem values_nonneg_invariant:
  assumes "values_nonneg s" and "\<forall>op \<in> set ops. amounts_nonneg op"
  shows "values_nonneg (run s ops)"
  using assms unfolding run_def
  by (induction ops arbitrary: s) (simp_all add: values_nonneg_step_op)

theorem values_nonneg_invariant_witness:
  "values_nonneg (init_base (1 / 2) 2 0) \<and>
   amounts_nonneg (ConsumeIntents [emit (0, 0) ''antigen'' 3, emit (0, 0) ''antigen'' 2]) \<and>
   values_nonneg (run (init_base (1 / 2) 2 0)
     [ConsumeIntents [emit (0, 0) ''antigen'' 3, emit (0, 0) ''antigen'' 2], AdvanceTick 4, Prune])"
proof -
  have a: "\<forall>op \<in> set [ConsumeIntents [emit (0, 0) ''antigen'' 3, emit (0, 0) ''antigen'' 2],
       AdvanceTick 4, Prune]. amounts_nonneg op"
    by (simp add: amount_of_def emit_def)
  from values_nonneg_invariant [OF values_nonneg_init a] values_nonneg_init
  show ?thesis by (simp add: amount_of_def emit_def)
qed

section \<open>The tick counter\<close>

text \<open>
  C7: \<^verbatim>\<open>current_tick\<close> is meant never to decrease, and \<^verbatim>\<open>advance_tick\<close>
  guards against an earlier tick. \<^verbatim>\<open>tick(step)\<close> adds \<^verbatim>\<open>step\<close> without that
  guard: on a new store \<^verbatim>\<open>tick(-1)\<close> moves \<^verbatim>\<open>current_tick\<close> from 0 to -1.
\<close>

theorem tick_negative_step_decreases:
  "current_tick (tick default_base (- 1)) = - 1 \<and>
   current_tick (tick default_base (- 1)) < current_tick default_base"
  by (simp add: tick_def default_base_def init_base_def)

text \<open>
  Every other call keeps the counter or moves it forward, and \<^verbatim>\<open>advance_tick\<close> to
  an earlier tick changes nothing at all.
\<close>

lemma step_op_current_tick:
  assumes "\<forall>n. op = Tick n \<longrightarrow> 0 \<le> n"
  shows "current_tick s \<le> current_tick (step_op s op)"
proof (cases op)
  case (ConsumeIntents intents)
  have "current_tick (foldl consume_intent s intents) = current_tick s"
    by (induction intents arbitrary: s)
       (auto simp: consume_intent_def set_entry_scalars Let_def split: option.splits)
  with ConsumeIntents show ?thesis by (simp add: consume_intents_def)
next
  case (Tick n)
  with assms show ?thesis by (simp add: tick_simps)
next
  case (ClaimLabel c l who)
  then show ?thesis
    by (auto simp: claim_label_def set_entry_scalars split: option.splits)
next
  case (ReleaseLabel c l who)
  then show ?thesis
    by (auto simp: release_label_def set_entry_scalars split: option.splits)
qed (simp_all add: advance_tick_simps prune_scalars)

lemma advance_tick_earlier: "t < current_tick s \<Longrightarrow> advance_tick s t = s"
  by (simp add: advance_tick_def)

section \<open>The decay functions\<close>

lemma half_powr_less_one: "0 < a \<Longrightarrow> (1 / 2) powr a < (1::real)"
  using powr01_less_one [of "1 / 2" a] by simp

text \<open>
  C4 (as the claim states it, refuted): with the default \<^verbatim>\<open>min_half_life\<close> of 1e-6,
  \<^verbatim>\<open>_decay_mass(1, 1, 0)\<close> does not return the mass unchanged, as the reference
  definition does for a half-life of 0: the half-life is raised to 1e-6 and the result is
  0.5 to the power 1000000.
\<close>

theorem decay_mass_clamps_half_life:
  "decay_reference 1 1 0 = 1 \<and>
   decay_mass default_decayer 1 1 0 = Inr ((1 / 2) powr (1 / (1 / 1000000))) \<and>
   decay_mass default_decayer 1 1 0 \<noteq> Inr (decay_reference 1 1 0)"
proof -
  have r: "decay_reference 1 1 0 = 1"
    by (simp add: decay_reference_def)
  have m: "decay_mass default_decayer 1 1 0 = Inr ((1 / 2) powr (1 / (1 / 1000000)))"
    unfolding decay_mass_def default_decayer_def Let_def
    by (simp del: powr_numeral divide_divide_eq_right)
  have "(1 / 2) powr (1 / (1 / 1000000)) < (1::real)"
    by (rule half_powr_less_one) simp
  with r m show ?thesis by simp
qed

lemma decay_mass_unfold:
  "decay_mass d m dt hl =
     (if dt \<le> 0 then Inr m
      else if hl < min_half_life d then
        (if min_half_life d = 0 then Inl ZeroDivisionError
         else Inr (m * (1 / 2) powr (dt / min_half_life d)))
      else if hl = 0 then Inl ZeroDivisionError
      else Inr (m * (1 / 2) powr (dt / hl)))"
  by (simp add: decay_mass_def Let_def)

lemma decay_rate_powr:
  assumes "0 < hl"
  shows "((1 / 2) powr (1 / hl)) ^ n = (1 / 2) powr (real n / hl)"
proof -
  have "((1 / 2) powr (1 / hl)) ^ n = ((1 / 2) powr (1 / hl)) powr real n"
    by (simp add: powr_realpow)
  also have "\<dots> = (1 / 2) powr (1 / hl * real n)"
    by (simp add: powr_powr)
  finally show ?thesis by simp
qed

text \<open>
  C4 (amended): \<^verbatim>\<open>_decay_mass(mass, dt, half_life)\<close> returns the mass unchanged for
  \<open>dt \<le> 0\<close>, and mass times 0.5 to the power \<open>dt / half_life\<close> for \<open>dt > 0\<close>
  and a non-zero half-life of at least \<^verbatim>\<open>min_half_life\<close>; a half-life below
  \<^verbatim>\<open>min_half_life\<close> is replaced by \<^verbatim>\<open>min_half_life\<close> (it is not treated as
  non-decaying). For a positive half-life of at least \<^verbatim>\<open>min_half_life\<close> the function
  equals the reference definition, and after \<open>n\<close> half-lives the mass is multiplied by
  0.5 to the power \<open>n\<close>. \<^verbatim>\<open>LabelCenterBase._decay\<close> multiplies by
  \<^verbatim>\<open>decay_rate\<close> once per elapsed tick, returns the value unchanged when no tick has
  elapsed or \<^verbatim>\<open>decay_rate <= 0\<close>, and equals the reference definition when
  \<^verbatim>\<open>decay_rate\<close> is 0.5 to the power \<open>1 / half_life\<close>.
\<close>

theorem decay_mass_cases:
  "(dt \<le> 0 \<longrightarrow> decay_mass d m dt hl = Inr m) \<and>
   (0 < dt \<and> min_half_life d \<le> hl \<and> hl \<noteq> 0 \<longrightarrow>
      decay_mass d m dt hl = Inr (m * (1 / 2) powr (dt / hl))) \<and>
   (0 < dt \<and> hl < min_half_life d \<and> min_half_life d \<noteq> 0 \<longrightarrow>
      decay_mass d m dt hl = Inr (m * (1 / 2) powr (dt / min_half_life d))) \<and>
   (min_half_life d \<le> hl \<and> 0 < hl \<longrightarrow>
      decay_mass d m dt hl = Inr (decay_reference m dt hl) \<and>
      decay_mass d m (real n * hl) hl = Inr (m * (1 / 2) ^ n)) \<and>
   (decay s v lt =
      (if current_tick s \<le> lt \<or> decay_rate s \<le> 0 then v
       else v * decay_rate s ^ nat (current_tick s - lt))) \<and>
   (0 < hl \<and> decay_rate s = (1 / 2) powr (1 / hl) \<longrightarrow>
      decay s v lt = decay_reference v (real_of_int (current_tick s - lt)) hl)"
proof -
  have ref: "decay_mass d m dt hl = Inr (decay_reference m dt hl)"
    if "min_half_life d \<le> hl \<and> 0 < hl"
    using that by (simp add: decay_mass_unfold decay_reference_def max_def)
  have mult: "decay_mass d m (real n * hl) hl = Inr (m * (1 / 2) ^ n)"
    if "min_half_life d \<le> hl \<and> 0 < hl"
  proof (cases "n = 0")
    case True
    then show ?thesis by (simp add: decay_mass_unfold)
  next
    case False
    with that have "0 < real n * hl" by simp
    with that show ?thesis
      by (simp add: decay_mass_unfold powr_realpow)
  qed
  have rate: "decay s v lt = decay_reference v (real_of_int (current_tick s - lt)) hl"
    if "0 < hl \<and> decay_rate s = (1 / 2) powr (1 / hl)"
  proof (cases "current_tick s \<le> lt")
    case True
    with that show ?thesis
      by (simp add: decay_unfold decay_reference_def max_def)
  next
    case False
    then have "real (nat (current_tick s - lt)) = real_of_int (current_tick s - lt)"
      by simp
    with False that decay_rate_powr [of hl "nat (current_tick s - lt)"] show ?thesis
      by (simp add: decay_unfold decay_reference_def max_def)
  qed
  show ?thesis
    using ref mult rate by (simp add: decay_mass_unfold decay_unfold)
qed

theorem decay_mass_cases_witness:
  "decay_mass default_decayer 8 8 8 = Inr 4 \<and>
   decay_mass default_decayer 8 8 8 = Inr (decay_reference 8 8 8) \<and>
   decay_mass default_decayer 8 (real 3 * 8) 8 = Inr (8 * (1 / 2) ^ 3) \<and>
   decay_mass default_decayer 8 (- 1) 8 = Inr 8 \<and>
   decay_mass default_decayer 1 1 (- 2) = Inr ((1 / 2) powr (1 / min_half_life default_decayer)) \<and>
   decay prune_store 1 0 = decay_reference 1 3 1"
proof -
  have mh: "min_half_life default_decayer = 1 / 1000000"
    by (simp add: default_decayer_def)
  have le: "min_half_life default_decayer \<le> 8 \<and> (0::real) < 8"
    by (simp add: mh)
  have lt: "(0::real) < 1 \<and> - 2 < min_half_life default_decayer \<and> min_half_life default_decayer \<noteq> 0"
    by (simp add: mh)
  have rate: "(0::real) < 1 \<and> decay_rate prune_store = (1 / 2) powr (1 / 1)"
    by (simp add: prune_store_scalars)
  from decay_mass_cases [of 8 default_decayer 8 8 3 prune_store 1 0] le
  have a: "decay_mass default_decayer 8 8 8 = Inr 4"
    and b: "decay_mass default_decayer 8 8 8 = Inr (decay_reference 8 8 8)"
    and c: "decay_mass default_decayer 8 (real 3 * 8) 8 = Inr (8 * (1 / 2) ^ 3)"
    by (simp_all add: decay_reference_def)
  from decay_mass_cases [of "- 1" default_decayer 8 8 0 prune_store 1 0]
  have d: "decay_mass default_decayer 8 (- 1) 8 = Inr 8"
    by simp
  from decay_mass_cases [of 1 default_decayer 1 "- 2" 0 prune_store 1 0] lt
  have e: "decay_mass default_decayer 1 1 (- 2) =
      Inr ((1 / 2) powr (1 / min_half_life default_decayer))"
    by simp
  from decay_mass_cases [of 1 default_decayer 1 1 0 prune_store 1 0] rate
  have f: "decay prune_store 1 0 = decay_reference 1 3 1"
    by (simp add: prune_store_scalars)
  from a b c d e f show ?thesis by blast
qed

section \<open>The intent queue: \<^verbatim>\<open>enqueue_intents\<close> and \<^verbatim>\<open>apply_tick\<close>\<close>







text \<open>
  The shape matters: \<^verbatim>\<open>payload["coord"]\<close> raises on an emit intent without a
  coordinate, and \<^verbatim>\<open>apply_tick\<close> then stops with the earlier intents of the queue
  applied and the queue not cleared. The tick argument plays no part.
\<close>

lemma apply_tick_stops_at_missing_key:
  "apply_tick
     (enqueue_intents init_center
        [emit (1, 1) ''A'' 1,
         \<lparr>name = Some ''emit_label'', payload = \<lparr>coord = None, label = Some ''B'', amount = None\<rparr>\<rparr>]
        None None) None =
   Inl (KeyError,
     \<lparr>intent_queue =
        [\<lparr>b_intents = [emit (1, 1) ''A'' 1,
           \<lparr>name = Some ''emit_label'', payload = \<lparr>coord = None, label = Some ''B'', amount = None\<rparr>\<rparr>],
          b_source = None, b_tick = None\<rparr>],
      field = [(1, 1) \<mapsto> [''A'' \<mapsto> 1]], grid_summary_cache = None\<rparr>)"
  by (simp add: apply_tick_def enqueue_intents_def init_center_def apply_intent_def emit_def)

lemma apply_tick_ignores_tick: "apply_tick lc t = apply_tick lc t'"
  by (simp add: apply_tick_def)

end
